theory Spec2Isabelle
  imports Complex_Main "HOL-Library.Log_Nat"
begin

section \<open>The dice application: data model\<close>

text \<open>
  The application is a React tree: \<open>App\<close> (\<^verbatim>\<open>src/App.tsx\<close>) owns the Multiplier Overlay
  state and the die selector, and mounts one die component at a time
  (\<^verbatim>\<open>src/components/3d/D20Dice.tsx\<close> for the twenty-sided die, the \<open>D6Dice\<close> component for
  the six-sided one).

  The overlay's display value and multiplier are JavaScript numbers that the code
  multiplies and divides without bound, so they are modelled as binary64 values with the
  rounding, the overflow and the special values of \<open>*\<close> and \<open>/\<close>. Roll values, which the
  code only ever produces with \<open>Math.floor\<close> from a draw in \<open>[0, 1)\<close>, are \<open>int\<close>; rotations
  and frame deltas are \<open>real\<close>, without rounding. \<open>Math.random()\<close> is a parameter \<open>u\<close> of the
  callback that draws it; React state is passed explicitly; a component's \<open>useState\<close>
  cells and refs are the fields of a record.
\<close>

subsection \<open>JavaScript numbers\<close>

text \<open>
  A JavaScript number: a finite value (\<open>Num 0\<close> is \<open>+0\<close>), \<open>-0\<close>, the two infinities and
  \<open>NaN\<close>. The numbers the operations below produce are binary64 values; \<open>Num x\<close> is meant
  for an \<open>x\<close> that binary64 represents.
\<close>

datatype number = Num real | NegZero | Infinity | NegInfinity | NaN

text \<open>The number of an integer (exact for integers up to \<open>2^53\<close> in absolute value).\<close>

definition toNumber :: "int \<Rightarrow> number" where
  "toNumber k = Num (of_int k)"

text \<open>\<open>2\<close> to an integer power.\<close>

definition pow2 :: "int \<Rightarrow> real" where
  "pow2 e = (if 0 \<le> e then 2 ^ nat e else 1 / 2 ^ nat (- e))"

text \<open>
  The binary exponent of a positive real \<open>a\<close>: the \<open>e\<close> with \<open>2^e \<le> a < 2^(e+1)\<close>, computed
  from the bit length of the integer part of \<open>a\<close> or of \<open>1 / a\<close>.
\<close>

definition exponent :: "real \<Rightarrow> int" where
  "exponent a =
     (if 1 \<le> a then bitlen \<lfloor>a\<rfloor> - 1
      else let k = bitlen \<lfloor>1 / a\<rfloor>
           in if a * 2 ^ nat (k - 1) = 1 then 1 - k else - k)"

text \<open>Rounding to the nearest integer, a tie going to the even one.\<close>

definition roundEven :: "real \<Rightarrow> int" where
  "roundEven q =
     (let f = \<lfloor>q\<rfloor>; d = q - of_int f
      in if d < 1 / 2 then f
         else if 1 / 2 < d then f + 1
         else if even f then f else f + 1)"

definition signedZero :: "bool \<Rightarrow> number" where
  "signedZero neg = (if neg then NegZero else Num 0)"

definition signedInfinity :: "bool \<Rightarrow> number" where
  "signedInfinity neg = (if neg then NegInfinity else Infinity)"

text \<open>
  The binary64 value of an exact result \<open>x\<close>, rounded to nearest, ties to even: 53
  significant bits, the unit in the last place no smaller than \<open>2^-1074\<close> (subnormal
  numbers), and infinity when the rounded magnitude reaches \<open>2^1024\<close>.
\<close>

definition binary64 :: "real \<Rightarrow> number" where
  "binary64 x =
     (if x = 0 then Num 0
      else let e = max (exponent \<bar>x\<bar>) (- 1022);
               ulp = pow2 (e - 52);
               y = of_int (roundEven (x / ulp)) * ulp
           in if y = 0 then signedZero (x < 0)
              else if pow2 1024 \<le> \<bar>y\<bar> then signedInfinity (x < 0)
              else Num y)"

fun negative :: "number \<Rightarrow> bool" where
  "negative (Num x) = (x < 0)"
| "negative NegZero = True"
| "negative Infinity = False"
| "negative NegInfinity = True"
| "negative NaN = False"

fun isZero :: "number \<Rightarrow> bool" where
  "isZero (Num x) = (x = 0)"
| "isZero NegZero = True"
| "isZero _ = False"

fun isInfinite :: "number \<Rightarrow> bool" where
  "isInfinite Infinity = True"
| "isInfinite NegInfinity = True"
| "isInfinite _ = False"

text \<open>The real value of a finite number (0 for the others, which the callers exclude).\<close>

fun magnitude :: "number \<Rightarrow> real" where
  "magnitude (Num x) = x"
| "magnitude _ = 0"

text \<open>The operator \<open>*\<close> on numbers.\<close>

definition js_mul :: "number \<Rightarrow> number \<Rightarrow> number" where
  "js_mul a b =
     (if a = NaN \<or> b = NaN then NaN
      else if (isInfinite a \<and> isZero b) \<or> (isZero a \<and> isInfinite b) then NaN
      else if isInfinite a \<or> isInfinite b then signedInfinity (negative a \<noteq> negative b)
      else if isZero a \<or> isZero b then signedZero (negative a \<noteq> negative b)
      else binary64 (magnitude a * magnitude b))"

text \<open>The operator \<open>/\<close> on numbers.\<close>

definition js_div :: "number \<Rightarrow> number \<Rightarrow> number" where
  "js_div a b =
     (if a = NaN \<or> b = NaN then NaN
      else if (isInfinite a \<and> isInfinite b) \<or> (isZero a \<and> isZero b) then NaN
      else if isInfinite a \<or> isZero b then signedInfinity (negative a \<noteq> negative b)
      else if isInfinite b \<or> isZero a then signedZero (negative a \<noteq> negative b)
      else binary64 (magnitude a / magnitude b))"

text \<open>The operator \<open>>\<close> on numbers: false when an operand is \<open>NaN\<close>; \<open>-0\<close> compares as \<open>0\<close>.\<close>

fun js_gt :: "number \<Rightarrow> number \<Rightarrow> bool" where
  "js_gt NaN _ = False"
| "js_gt _ NaN = False"
| "js_gt Infinity b = (b \<noteq> Infinity)"
| "js_gt NegInfinity _ = False"
| "js_gt a Infinity = False"
| "js_gt a NegInfinity = True"
| "js_gt a b = (magnitude a > magnitude b)"

subsection \<open>App: the Multiplier Overlay and the die selector\<close>

datatype DiceType = d20 | d6

record App =
  displayValue :: "number option"
  multiplier :: number
  selectedDice :: DiceType

text \<open>The three \<open>useState\<close> initial values of \<open>App\<close>.\<close>

definition App_init :: App where
  "App_init = \<lparr>displayValue = None, multiplier = Num 1, selectedDice = d20\<rparr>"

definition handleRollComplete :: "number \<Rightarrow> App \<Rightarrow> App" where
  "handleRollComplete v a = a\<lparr>displayValue := Some v, multiplier := Num 1\<rparr>"

definition handleMultiply :: "number \<Rightarrow> App \<Rightarrow> App" where
  "handleMultiply factor a =
     (case displayValue a of
        None \<Rightarrow> a
      | Some dv \<Rightarrow> a\<lparr>displayValue := Some (js_mul dv factor),
                      multiplier := js_mul (multiplier a) factor\<rparr>)"

definition handleResetMultiplier :: "App \<Rightarrow> App" where
  "handleResetMultiplier a =
     (case displayValue a of
        None \<Rightarrow> a
      | Some dv \<Rightarrow>
          if js_gt (multiplier a) (Num 1)
          then a\<lparr>displayValue := Some (js_div dv (multiplier a)), multiplier := Num 1\<rparr>
          else a)"

definition setSelectedDice :: "DiceType \<Rightarrow> App \<Rightarrow> App" where
  "setSelectedDice d a = a\<lparr>selectedDice := d\<rparr>"

text \<open>The factors of the multiply buttons that \<open>App\<close> renders: \<^verbatim>\<open>[2, 3, 4, 5, 6].map(...)\<close>.\<close>

definition multiplyButtons :: "number list" where
  "multiplyButtons = [Num 2, Num 3, Num 4, Num 5, Num 6]"

text \<open>
  The handlers of \<open>App\<close> as actions, to speak about their interleavings: the
  roll-completion notification, a multiply button, the reset button, a die-selector
  button. The type \<open>'n\<close> is that of the numbers carried: \<open>number\<close> for the code, \<open>int\<close> for
  the exact overlay below.
\<close>

datatype 'n AppAction =
    OnRollComplete 'n
  | MultiplyBy 'n
  | ResetMultiplier
  | SelectDice DiceType

fun appStep :: "App \<Rightarrow> number AppAction \<Rightarrow> App" where
  "appStep a (OnRollComplete v) = handleRollComplete v a"
| "appStep a (MultiplyBy f) = handleMultiply f a"
| "appStep a ResetMultiplier = handleResetMultiplier a"
| "appStep a (SelectDice d) = setSelectedDice d a"

definition appRun :: "number AppAction list \<Rightarrow> App \<Rightarrow> App" where
  "appRun acts a = foldl appStep a acts"

text \<open>The value carried by the most recent roll-completion notification of a history.\<close>

definition lastOutcome :: "'n AppAction list \<Rightarrow> 'n option" where
  "lastOutcome acts =
     foldl (\<lambda>acc act. case act of OnRollComplete v \<Rightarrow> Some v | _ \<Rightarrow> acc) None acts"

text \<open>An action the rendered page can produce: a multiply action is one of the five buttons.\<close>

fun exposed :: "number AppAction \<Rightarrow> bool" where
  "exposed (MultiplyBy f) = (f \<in> set multiplyButtons)"
| "exposed _ = True"

text \<open>
  The overlay as the specification words it, over the integers, where multiplication
  and division are exact: the outcome of the most recent notification (if any) and the
  cumulative multiplier. The display value it stands for is their product.
\<close>

type_synonym exactOverlay = "int option \<times> int"

fun exactStep :: "exactOverlay \<Rightarrow> int AppAction \<Rightarrow> exactOverlay" where
  "exactStep (vo, m) (OnRollComplete v) = (Some v, 1)"
| "exactStep (vo, m) (MultiplyBy f) = (case vo of None \<Rightarrow> (None, m) | Some v \<Rightarrow> (Some v, m * f))"
| "exactStep (vo, m) ResetMultiplier = (vo, 1)"
| "exactStep (vo, m) (SelectDice d) = (vo, m)"

definition exactRun :: "int AppAction list \<Rightarrow> exactOverlay" where
  "exactRun acts = foldl exactStep (None, 1) acts"

text \<open>
  The exact display value is an integer that binary64 represents for certain: at most
  \<open>2^53\<close>.
\<close>

fun representable :: "exactOverlay \<Rightarrow> bool" where
  "representable (None, m) = True"
| "representable (Some v, m) = (v * m \<le> 2 ^ 53)"

text \<open>From the overlay \<open>s\<close> on, the exact display value stays representable after every action.\<close>

fun withinExact :: "exactOverlay \<Rightarrow> int AppAction list \<Rightarrow> bool" where
  "withinExact s [] = True"
| "withinExact s (x # xs) = (representable (exactStep s x) \<and> withinExact (exactStep s x) xs)"

text \<open>
  The actions of a page whose rolls report die outcomes: a notified outcome is at least 1
  and a multiply factor is one of the five buttons.
\<close>

fun admissible :: "int AppAction \<Rightarrow> bool" where
  "admissible (OnRollComplete v) = (1 \<le> v)"
| "admissible (MultiplyBy f) = (f \<in> set [2, 3, 4, 5, 6])"
| "admissible _ = True"

text \<open>
  The state of \<open>App\<close> and the most recent notified value \<open>lo\<close> agree with an exact
  overlay: the same outcome, the same multiplier, and the display value is their product,
  all within the integers that binary64 represents.
\<close>

fun agrees :: "App \<Rightarrow> number option \<Rightarrow> exactOverlay \<Rightarrow> bool" where
  "agrees a lo (vo, m) =
     (1 \<le> m \<and> multiplier a = toNumber m \<and>
      displayValue a = map_option (\<lambda>v. toNumber (v * m)) vo \<and>
      lo = map_option toNumber vo \<and>
      (case vo of None \<Rightarrow> m = 1 | Some v \<Rightarrow> 1 \<le> v \<and> v * m \<le> 2 ^ 53))"

subsection \<open>JavaScript helpers\<close>

text \<open>
  Array indexing \<^verbatim>\<open>xs[i]\<close>: an index outside the array reads \<open>undefined\<close>, here \<open>None\<close>.
\<close>

definition js_index :: "'a list \<Rightarrow> int \<Rightarrow> 'a option" where
  "js_index xs i = (if 0 \<le> i \<and> i < int (length xs) then Some (xs ! nat i) else None)"

text \<open>
  The decimal text of a number in a template literal, for the integers a roll value can be.
\<close>

fun decimal :: "nat \<Rightarrow> string" where
  "decimal n =
     (if n < 10 then [''0123456789'' ! n]
      else decimal (n div 10) @ [''0123456789'' ! (n mod 10)])"

declare decimal.simps [simp del]

definition String :: "int \<Rightarrow> string" where
  "String k = (if k < 0 then CHR ''-'' # decimal (nat (- k)) else decimal (nat k))"

text \<open>\<^verbatim>\<open>MathUtils.lerp(x, y, t)\<close> of the three.js library: \<^verbatim>\<open>(1 - t) * x + t * y\<close>.\<close>

definition lerp :: "real \<Rightarrow> real \<Rightarrow> real \<Rightarrow> real" where
  "lerp x y t = (1 - t) * x + t * y"

subsection \<open>Face-orientation tables\<close>

text \<open>An Euler rotation \<^verbatim>\<open>[x, y, z]\<close> in radians.\<close>

type_synonym rotation = "real \<times> real \<times> real"

text \<open>\<^verbatim>\<open>FACE_UP_ROTATIONS\<close> of \<^verbatim>\<open>D20Dice.tsx\<close>: index 0 is a roll of 1, index 19 a roll of 20.\<close>

definition FACE_UP_ROTATIONS_D20 :: "rotation list" where
  "FACE_UP_ROTATIONS_D20 =
    [(2, 0, 0),
     (1.2, 0, 0),
     (-0.7, -0.6, -0.2),
     (2, -0.3, -0.6),
     (1.6, 2.7, -1.2),
     (0.5, -1.5, 0),
     (0, 0.45, 0),
     (-0.3, 1.6, 0),
     (1.7, 0.8, 1.2),
     (0, -2.7, 0),
     (-1.2, 3.14, 0),
     (2, 0.3, 0.6),
     (-1.2, 0, 0),
     (0.7, 0.8, 0),
     (-0.3, -1.6, 0),
     (0, -0.45, 0),
     (-0.7, 2.5, 0.2),
     (-0.7, 0.6, 0.2),
     (-0.7, -2.5, -0.2),
     (0.8, -0.8, 0)]"

text \<open>\<^verbatim>\<open>Math.PI\<close>, the number that JavaScript prints as 3.141592653589793.\<close>

definition Math_PI :: real where
  "Math_PI = 3.141592653589793"

text \<open>\<^verbatim>\<open>FACE_UP_ROTATIONS\<close> of the \<open>D6Dice\<close> component: index 0 is a roll of 1, index 5 a roll of 6.\<close>

definition FACE_UP_ROTATIONS_D6 :: "rotation list" where
  "FACE_UP_ROTATIONS_D6 =
    [(0, 0, 0),
     (0, - Math_PI / 2, 0),
     (Math_PI / 2, 0, 0),
     (- Math_PI / 2, 0, 0),
     (0, Math_PI / 2, 0),
     (0, Math_PI, 0)]"

text \<open>
  The number of faces of a die type, and the lookup both timer callbacks make with the
  outcome they drew: \<^verbatim>\<open>FACE_UP_ROTATIONS[result - 1]\<close>.
\<close>

fun faces :: "DiceType \<Rightarrow> int" where
  "faces d20 = 20"
| "faces d6 = 6"

fun orientationOf :: "DiceType \<Rightarrow> int \<Rightarrow> rotation option" where
  "orientationOf d20 outcome = js_index FACE_UP_ROTATIONS_D20 (outcome - 1)"
| "orientationOf d6 outcome = js_index FACE_UP_ROTATIONS_D6 (outcome - 1)"

subsection \<open>The twenty-sided die\<close>

text \<open>
  \<^verbatim>\<open>D20Dice.tsx\<close> in the version that snaps the die to \<open>FACE_UP_ROTATIONS\<close>. The state of
  one \<open>D20Dice\<close> instance: \<open>d20_mesh\<close> is the rotation of \<^verbatim>\<open>meshRef.current\<close> (\<open>None\<close>
  while the ref holds no mesh), the other two fields are the \<open>useState\<close> cells
  \<open>isRolling\<close> and \<open>rollValue\<close>.
\<close>

record D20State =
  d20_mesh :: "rotation option"
  d20_isRolling :: bool
  d20_rollValue :: "int option"

text \<open>\<open>useFrame((_, delta) => ...)\<close>: the tumble of a rolling die.\<close>

definition D20_useFrame :: "real \<Rightarrow> D20State \<Rightarrow> D20State" where
  "D20_useFrame delta s =
     (case d20_mesh s of
        None \<Rightarrow> s
      | Some (x, y, z) \<Rightarrow>
          if d20_isRolling s
          then s\<lparr>d20_mesh := Some (x + delta * 5, y + delta * 7, z + delta * 3)\<rparr>
          else s)"

text \<open>
  \<open>handleClick\<close>, up to and including the call of \<open>setTimeout\<close>. The second component
  tells whether the 1500 ms completion timer was scheduled.
\<close>

definition D20_handleClick :: "D20State \<Rightarrow> D20State \<times> bool" where
  "D20_handleClick s =
     (if d20_isRolling s then (s, False)
      else (s\<lparr>d20_isRolling := True, d20_rollValue := None\<rparr>, True))"

text \<open>
  The callback given to \<open>setTimeout\<close>, with the draw \<open>u\<close> of \<open>Math.random()\<close>. Reading a
  table entry that does not exist makes the destructuring throw after the two state
  updates: the rotation then stays as it was.
\<close>

definition D20_onTimeout :: "real \<Rightarrow> D20State \<Rightarrow> D20State" where
  "D20_onTimeout u s =
     (let result = \<lfloor>u * 20\<rfloor> + 1;
          s1 = s\<lparr>d20_isRolling := False, d20_rollValue := Some result\<rparr>
      in case d20_mesh s1 of
           None \<Rightarrow> s1
         | Some _ \<Rightarrow>
             (case js_index FACE_UP_ROTATIONS_D20 (result - 1) of
                None \<Rightarrow> s1
              | Some r \<Rightarrow> s1\<lparr>d20_mesh := Some r\<rparr>))"

text \<open>
  The result \<open>Text\<close> element: \<^verbatim>\<open>{rollValue && !isRolling && (<Text>...</Text>)}\<close>, \<open>None\<close>
  when no element is rendered. A roll value of 0 is falsy.
\<close>

definition D20_resultText :: "D20State \<Rightarrow> string option" where
  "D20_resultText s =
     (case d20_rollValue s of
        None \<Rightarrow> None
      | Some v \<Rightarrow>
          if v \<noteq> 0 \<and> \<not> d20_isRolling s
          then Some (if v = 20 then ''CRITICAL HIT!''
                     else if v = 1 then ''CRITICAL FAIL!''
                     else ''Rolled: '' @ String v)
          else None)"

subsection \<open>The six-sided die\<close>

text \<open>The two audio cues the six-sided die plays.\<close>

datatype Cue = RollSound | SettleSound

text \<open>
  The state of one mounted \<open>D6Dice\<close> instance: the mesh rotation, the \<open>useState\<close> cells
  \<open>isRolling\<close>, \<open>rollValue\<close> and \<open>isSettling\<close>, the ref \<open>targetRotation\<close> (\<open>None\<close> when it
  holds \<open>undefined\<close>), and the play requests made so far (playback itself is best effort:
  a rejected \<open>play()\<close> is caught and dropped).
\<close>

record D6State =
  d6_mesh :: "rotation option"
  d6_isRolling :: bool
  d6_rollValue :: "int option"
  d6_isSettling :: bool
  d6_targetRotation :: "rotation option"
  d6_cues :: "Cue list"

text \<open>
  \<open>useFrame\<close>: first the tumble while rolling, then the easing while settling. With no
  target to destructure the callback throws after the tumble.
\<close>

definition D6_useFrame :: "real \<Rightarrow> D6State \<Rightarrow> D6State" where
  "D6_useFrame delta s =
     (case d6_mesh s of
        None \<Rightarrow> s
      | Some (x, y, z) \<Rightarrow>
          let (x1, y1, z1) =
                (if d6_isRolling s then (x + delta * 5, y + delta * 7, z + delta * 3)
                 else (x, y, z));
              s1 = s\<lparr>d6_mesh := Some (x1, y1, z1)\<rparr>
          in if d6_isSettling s then
               (case d6_targetRotation s of
                  None \<Rightarrow> s1
                | Some (tx, ty, tz) \<Rightarrow>
                    let lerpFactor = 25 * delta;
                        x2 = lerp x1 tx lerpFactor;
                        y2 = lerp y1 ty lerpFactor;
                        z2 = lerp z1 tz lerpFactor;
                        threshold = 0.1;
                        dx = \<bar>x2 - tx\<bar>;
                        dy = \<bar>y2 - ty\<bar>;
                        dz = \<bar>z2 - tz\<bar>
                    in if dx < threshold \<and> dy < threshold \<and> dz < threshold
                       then s\<lparr>d6_mesh := Some (tx, ty, tz), d6_isSettling := False,
                              d6_cues := d6_cues s @ [SettleSound]\<rparr>
                       else s\<lparr>d6_mesh := Some (x2, y2, z2)\<rparr>)
             else s1)"

text \<open>
  \<open>handleClick\<close>, up to and including the call of \<open>setTimeout\<close>: the guard, the roll
  sound, the two state updates. The second component tells whether the 1500 ms completion
  timer was scheduled. (The result text of this component, which also reads the
  \<open>displayValue\<close> prop, is not part of the model.)
\<close>

definition D6_handleClick :: "D6State \<Rightarrow> D6State \<times> bool" where
  "D6_handleClick s =
     (if d6_isRolling s then (s, False)
      else (s\<lparr>d6_cues := d6_cues s @ [RollSound], d6_isRolling := True,
               d6_rollValue := None\<rparr>, True))"

text \<open>
  The callback given to \<open>setTimeout\<close>. \<open>given\<close> tells whether the optional prop
  \<open>onRollComplete\<close> was supplied; the second component lists the values the callback
  passes to it, in order.
\<close>

definition D6_onTimeout :: "bool \<Rightarrow> real \<Rightarrow> D6State \<Rightarrow> D6State \<times> int list" where
  "D6_onTimeout given u s =
     (let result = \<lfloor>u * 6\<rfloor> + 1;
          rotationIndex = result - 1
      in (s\<lparr>d6_isRolling := False, d6_rollValue := Some result,
             d6_targetRotation := js_index FACE_UP_ROTATIONS_D6 rotationIndex,
             d6_isSettling := True\<rparr>,
          if given then [result] else []))"

subsection \<open>The roll phase\<close>

text \<open>
  The phase of the specification's roll state machine, read off a die's state: rolling
  while \<open>isRolling\<close>, settling while the six-sided die eases into place, resolved once a
  roll value is shown and idle before the first roll.
\<close>

datatype Phase = Idle | Rolling | Settling | Resolved

definition D20_phase :: "D20State \<Rightarrow> Phase" where
  "D20_phase s =
     (if d20_isRolling s then Rolling
      else if d20_rollValue s \<noteq> None then Resolved
      else Idle)"

definition D6_phase :: "D6State \<Rightarrow> Phase" where
  "D6_phase s =
     (if d6_isRolling s then Rolling
      else if d6_isSettling s then Settling
      else if d6_rollValue s \<noteq> None then Resolved
      else Idle)"

subsection \<open>The mounted die and its timers\<close>

datatype Die = DieD20 D20State | DieD6 D6State

fun Die_phase :: "Die \<Rightarrow> Phase" where
  "Die_phase (DieD20 s) = D20_phase s"
| "Die_phase (DieD6 s) = D6_phase s"

fun Die_outcome :: "Die \<Rightarrow> int option" where
  "Die_outcome (DieD20 s) = d20_rollValue s"
| "Die_outcome (DieD6 s) = d6_rollValue s"

fun Die_handleClick :: "Die \<Rightarrow> Die \<times> bool" where
  "Die_handleClick (DieD20 s) = (let (s', t) = D20_handleClick s in (DieD20 s', t))"
| "Die_handleClick (DieD6 s) = (let (s', t) = D6_handleClick s in (DieD6 s', t))"

fun Die_useFrame :: "real \<Rightarrow> Die \<Rightarrow> Die" where
  "Die_useFrame delta (DieD20 s) = DieD20 (D20_useFrame delta s)"
| "Die_useFrame delta (DieD6 s) = DieD6 (D6_useFrame delta s)"

text \<open>
  Modelled from the spec: \<^verbatim>\<open>Scene.tsx\<close> in the version that \<open>App\<close> renders (with the props
  \<open>onRollComplete\<close>, \<open>displayValue\<close> and \<open>selectedDice\<close>) is missing from the sources. By
  the specification it mounts the die of the selected type, a fresh instance at Idle, it
  unmounts the previous instance when the type changes, and the roll-completion
  notification of the die is the overlay's \<open>handleRollComplete\<close>. The fresh instance has
  the \<open>useState\<close> and \<open>useRef\<close> initial values of its component, and its mesh starts at
  rotation \<open>(0, 0, 0)\<close>.
\<close>

fun mount :: "DiceType \<Rightarrow> Die" where
  "mount d20 = DieD20 \<lparr>d20_mesh = Some (0, 0, 0), d20_isRolling = False, d20_rollValue = None\<rparr>"
| "mount d6 = DieD6 \<lparr>d6_mesh = Some (0, 0, 0), d6_isRolling = False, d6_rollValue = None,
                      d6_isSettling = False, d6_targetRotation = Some (0, 0, 0), d6_cues = []\<rparr>"

text \<open>
  Modelled from the spec: the unmounting that the missing \<^verbatim>\<open>Scene.tsx\<close> causes when the
  selected type changes. The instance's state cells stay as the pending callbacks left
  them; its mesh is gone.
\<close>

fun unmount :: "Die \<Rightarrow> Die" where
  "unmount (DieD20 s) = DieD20 (s\<lparr>d20_mesh := None\<rparr>)"
| "unmount (DieD6 s) = DieD6 (s\<lparr>d6_mesh := None\<rparr>)"

text \<open>
  Modelled from the spec: which props the missing \<^verbatim>\<open>Scene.tsx\<close> gives a die. The
  six-sided die is given \<open>onRollComplete\<close> (hence \<open>True\<close>); the twenty-sided die has no
  such prop and its callback passes nothing on. The result is the die after its timer
  callback, with the values the callback passes to \<open>onRollComplete\<close>.
\<close>

fun Die_onTimeout :: "real \<Rightarrow> Die \<Rightarrow> Die \<times> int list" where
  "Die_onTimeout u (DieD20 s) = (DieD20 (D20_onTimeout u s), [])"
| "Die_onTimeout u (DieD6 s) = (let (s', vs) = D6_onTimeout True u s in (DieD6 s', vs))"

text \<open>
  The whole page. \<open>dice\<close> holds every die instance created so far, the last one being the
  mounted one; an unmounted instance stays in the list because a timer callback it
  scheduled still closes over its state cells. \<open>timers\<close> lists the owners (indices into
  \<open>dice\<close>) of the pending completion timers, oldest first: all timers have the same delay
  of 1500 ms, so they fire in the order they were scheduled.
\<close>

record Page =
  app :: App
  dice :: "Die list"
  timers :: "nat list"

definition Page_init :: Page where
  "Page_init = \<lparr>app = App_init, dice = [mount (selectedDice App_init)], timers = []\<rparr>"

definition mountedId :: "Page \<Rightarrow> nat" where
  "mountedId p = length (dice p) - 1"

definition mountedDie :: "Page \<Rightarrow> Die option" where
  "mountedDie p = (if dice p = [] then None else Some (last (dice p)))"

text \<open>
  What can happen to the page: a click on the mounted die, a rendered frame with its
  delta, the oldest pending timer firing (with the draw of \<open>Math.random()\<close>), and the
  buttons of \<open>App\<close>.
\<close>

datatype Event =
    Click
  | Frame real
  | Timeout real
  | Select DiceType
  | Multiply number
  | Reset

fun step :: "Page \<Rightarrow> Event \<Rightarrow> Page" where
  "step p Click =
     (if dice p = [] then p
      else let i = mountedId p;
               (d', scheduled) = Die_handleClick (dice p ! i)
           in p\<lparr>dice := (dice p)[i := d'],
                timers := timers p @ (if scheduled then [i] else [])\<rparr>)"
| "step p (Frame delta) =
     (if dice p = [] then p
      else let i = mountedId p
           in p\<lparr>dice := (dice p)[i := Die_useFrame delta (dice p ! i)]\<rparr>)"
| "step p (Timeout u) =
     (case timers p of
        [] \<Rightarrow> p
      | i # rest \<Rightarrow>
          if i < length (dice p)
          then let (d', vs) = Die_onTimeout u (dice p ! i)
               in p\<lparr>dice := (dice p)[i := d'], timers := rest,
                    app := fold (\<lambda>v. handleRollComplete (toNumber v)) vs (app p)\<rparr>
          else p\<lparr>timers := rest\<rparr>)"
| "step p (Select d) =
     (let p' = p\<lparr>app := setSelectedDice d (app p)\<rparr>
      in if d = selectedDice (app p) then p'
         else p'\<lparr>dice := map unmount (dice p) @ [mount d]\<rparr>)"
| "step p (Multiply f) = p\<lparr>app := handleMultiply f (app p)\<rparr>"
| "step p Reset = p\<lparr>app := handleResetMultiplier (app p)\<rparr>"

definition run :: "Event list \<Rightarrow> Page \<Rightarrow> Page" where
  "run evs p = foldl step p evs"

text \<open>
  Every pending timer belongs to a die instance of the page, and a die is mounted.
\<close>

definition timersOwned :: "Page \<Rightarrow> bool" where
  "timersOwned p = (dice p \<noteq> [] \<and> list_all (\<lambda>i. i < length (dice p)) (timers p))"

text \<open>
  An example state: a six-sided die right after its timer callback drew a 4, not yet moved
  by any frame.
\<close>

definition settling4 :: D6State where
  "settling4 = \<lparr>d6_mesh = Some (0, 0, 0), d6_isRolling = False, d6_rollValue = Some 4,
      d6_isSettling = True, d6_targetRotation = Some (- Math_PI / 2, 0, 0),
      d6_cues = [RollSound]\<rparr>"

section \<open>The Multiplier Overlay\<close>

subsection \<open>Binary64 rounding\<close>

lemma roundEven_of_int: "roundEven (of_int k) = k"
  by (simp add: roundEven_def)

lemma pow2_nonneg: "0 \<le> e \<Longrightarrow> pow2 e = 2 ^ nat e"
  by (simp add: pow2_def)

lemma pow2_neg: "0 \<le> k \<Longrightarrow> pow2 (- k) = 1 / 2 ^ nat k"
  by (cases "k = 0") (simp_all add: pow2_def)

text \<open>The exponent function finds the binade of every positive real.\<close>

lemma exponent_bounds:
  assumes "0 < a"
  shows "pow2 (exponent a) \<le> a \<and> a < pow2 (exponent a + 1)"
proof (cases "1 \<le> a")
  case True
  define n where "n = \<lfloor>a\<rfloor>"
  have n: "0 < n" using True by (simp add: n_def)
  have b: "2 ^ nat (bitlen n - 1) \<le> n" "n < 2 ^ nat (bitlen n)"
    using bitlen_bounds [OF n] by simp_all
  have k: "1 \<le> bitlen n" using n by (simp add: bitlen_alt_def)
  have e: "exponent a = bitlen n - 1" using True by (simp add: exponent_def n_def)
  have lo: "(2::real) ^ nat (bitlen n - 1) \<le> a"
  proof -
    have "real_of_int (2 ^ nat (bitlen n - 1)) \<le> real_of_int n" using b(1) by (simp only: of_int_le_iff)
    also have "\<dots> \<le> a" by (simp add: n_def)
    finally show ?thesis by simp
  qed
  have hi: "a < (2::real) ^ nat (bitlen n)"
  proof -
    have "a < real_of_int (n + 1)" by (simp add: n_def)
    also have "real_of_int (n + 1) \<le> real_of_int (2 ^ nat (bitlen n))"
      using b(2) by (simp only: of_int_le_iff)
    finally show ?thesis by simp
  qed
  show ?thesis using lo hi k by (simp add: e pow2_def)
next
  case False
  define n where "n = \<lfloor>1 / a\<rfloor>"
  define k where "k = bitlen n"
  have a1: "a < 1" using False by simp
  have "1 < 1 / a" using assms a1 by simp
  then have n: "0 < n" by (simp add: n_def)
  have b: "2 ^ nat (k - 1) \<le> n" "n < 2 ^ nat k"
    using bitlen_bounds [OF n] by (simp_all add: k_def)
  have k1: "1 \<le> k" using n by (simp add: k_def bitlen_alt_def)
  have up: "a * 2 ^ nat (k - 1) \<le> 1"
  proof -
    have "real_of_int (2 ^ nat (k - 1)) \<le> real_of_int n" using b(1) by (simp only: of_int_le_iff)
    also have "\<dots> \<le> 1 / a" by (simp add: n_def)
    finally have "(2::real) ^ nat (k - 1) \<le> 1 / a" by simp
    then show ?thesis using assms by (simp add: field_simps)
  qed
  have down: "1 < a * 2 ^ nat k"
  proof -
    have "1 / a < real_of_int (n + 1)" by (simp add: n_def)
    also have "real_of_int (n + 1) \<le> real_of_int (2 ^ nat k)"
      using b(2) by (simp only: of_int_le_iff)
    finally have "1 / a < (2::real) ^ nat k" by simp
    then show ?thesis using assms by (simp add: field_simps)
  qed
  have suc: "(2::real) ^ nat k = 2 * 2 ^ nat (k - 1)"
    using k1 by (metis Suc_nat_eq_nat_zadd1 add.commute diff_add_cancel diff_ge_0_iff_ge power_Suc)
  show ?thesis
  proof (cases "a * 2 ^ nat (k - 1) = 1")
    case True
    have e: "exponent a = 1 - k" using False True by (simp add: exponent_def n_def k_def Let_def)
    have k2: "2 \<le> k"
    proof (rule ccontr)
      assume "\<not> 2 \<le> k"
      with k1 have "k = 1" by simp
      with True a1 show False by simp
    qed
    have av: "a = 1 / 2 ^ nat (k - 1)" using True by (simp add: field_simps)
    have p1: "pow2 (1 - k) = 1 / 2 ^ nat (k - 1)" using k1 pow2_neg [of "k - 1"] by simp
    have p2: "pow2 (1 - k + 1) = 2 / 2 ^ nat (k - 1)"
    proof -
      have "pow2 (1 - k + 1) = 1 / 2 ^ nat (k - 2)" using k2 pow2_neg [of "k - 2"] by simp
      moreover have "(2::real) ^ nat (k - 1) = 2 * 2 ^ nat (k - 2)"
        using k2 by (metis Suc_nat_eq_nat_zadd1 add.commute diff_add_cancel diff_ge_0_iff_ge
            power_Suc diff_diff_eq one_add_one)
      ultimately show ?thesis by simp
    qed
    have "(1::real) / 2 ^ nat (k - 1) < 2 / 2 ^ nat (k - 1)"
      by (intro divide_strict_right_mono) simp_all
    then show ?thesis unfolding e p1 p2 using av by simp
  next
    case neq: False
    have e: "exponent a = - k" using False neq by (simp add: exponent_def n_def k_def Let_def)
    have p1: "pow2 (- k) = 1 / 2 ^ nat k" using k1 pow2_neg [of k] by simp
    have p2: "pow2 (- k + 1) = 1 / 2 ^ nat (k - 1)" using k1 pow2_neg [of "k - 1"] by simp
    have "a * 2 ^ nat (k - 1) < 1" using up neq by simp
    then show ?thesis unfolding e p1 p2 using down assms by (simp add: field_simps)
  qed
qed

text \<open>Positive integers up to \<open>2^53\<close> are binary64 values: rounding leaves them alone.\<close>

lemma exponent_of_int:
  assumes "0 < n"
  shows "exponent (of_int n) = bitlen n - 1"
  using assms by (simp add: exponent_def)

lemma bitlen_le_54:
  assumes "0 < n" "n \<le> 2 ^ 53"
  shows "1 \<le> bitlen n \<and> bitlen n \<le> 54"
proof -
  have b: "2 ^ nat (bitlen n - 1) \<le> n" using bitlen_bounds [OF assms(1)] by simp
  have pos: "1 \<le> bitlen n" using assms(1) by (simp add: bitlen_alt_def)
  have "nat (bitlen n - 1) \<le> 53"
  proof (rule ccontr)
    assume "\<not> nat (bitlen n - 1) \<le> 53"
    then have "54 \<le> nat (bitlen n - 1)" by simp
    then have "(2::int) ^ 54 \<le> 2 ^ nat (bitlen n - 1)" by (intro power_increasing) simp_all
    with b assms(2) show False by simp
  qed
  with pos show ?thesis by simp
qed

lemma binary64_of_int:
  assumes "0 < n" "n \<le> 2 ^ 53"
  shows "binary64 (of_int n) = Num (of_int n)"
proof -
  define e where "e = bitlen n - 1"
  have range: "0 \<le> e" "e \<le> 53" using bitlen_le_54 [OF assms] by (simp_all add: e_def)
  have ex: "max (exponent \<bar>of_int n\<bar>) (- 1022) = e"
    using assms(1) range exponent_of_int [OF assms(1)] by (simp add: e_def)
  have y: "of_int (roundEven (of_int n / pow2 (e - 52))) * pow2 (e - 52) = (of_int n :: real)"
  proof (cases "e \<le> 52")
    case True
    define k where "k = nat (52 - e)"
    have p: "pow2 (e - 52) = 1 / 2 ^ k"
      using True pow2_neg [of "52 - e"] by (simp add: k_def)
    have q: "real_of_int n / pow2 (e - 52) = of_int (n * 2 ^ k)"
      by (simp add: p)
    have "roundEven (real_of_int n / pow2 (e - 52)) = n * 2 ^ k"
      unfolding q by (rule roundEven_of_int)
    then show ?thesis by (simp add: p)
  next
    case False
    with range have e53: "e = 53" by simp
    have "2 ^ nat e \<le> n" using bitlen_bounds [OF assms(1)] by (simp add: e_def)
    with e53 assms(2) have n: "n = 2 ^ 53" by simp
    have p: "pow2 (e - 52) = 2" by (simp add: e53 pow2_def)
    have q: "real_of_int n / pow2 (e - 52) = of_int (2 ^ 52)" by (simp add: p n)
    have "roundEven (real_of_int n / pow2 (e - 52)) = 2 ^ 52"
      unfolding q by (rule roundEven_of_int)
    then show ?thesis by (simp add: p n)
  qed
  have small: "\<not> pow2 1024 \<le> \<bar>real_of_int n\<bar>"
  proof -
    have "real_of_int n \<le> real_of_int (2 ^ 53)" using assms(2) by (simp only: of_int_le_iff)
    also have "\<dots> < (2::real) ^ 1024" by simp
    finally show ?thesis using assms(1) by (simp add: pow2_def)
  qed
  have nz: "real_of_int n \<noteq> 0" using assms(1) by simp
  show ?thesis
    unfolding binary64_def Let_def ex y using nz small by simp
qed

lemma js_mul_exact:
  assumes "0 < a" "0 < b" "a * b \<le> 2 ^ 53"
  shows "js_mul (toNumber a) (toNumber b) = toNumber (a * b)"
proof -
  have "0 < a * b" using assms by simp
  from binary64_of_int [OF this assms(3)] show ?thesis
    using assms(1,2) by (simp add: js_mul_def toNumber_def)
qed

lemma js_div_exact:
  assumes "0 < v" "0 < m" "v \<le> 2 ^ 53"
  shows "js_div (toNumber (v * m)) (toNumber m) = toNumber v"
  using assms binary64_of_int [OF assms(1,3)] by (simp add: js_div_def toNumber_def)

lemma js_gt_toNumber: "js_gt (toNumber m) (Num 1) \<longleftrightarrow> 1 < m"
  by (simp add: toNumber_def)

subsection \<open>The round trip of multiply and reset\<close>

lemma prod_list_ge1: "list_all (\<lambda>n. 1 \<le> n) ns \<Longrightarrow> (1::int) \<le> prod_list ns"
proof (induction ns)
  case Nil
  then show ?case by simp
next
  case (Cons n ns)
  then have "1 \<le> n" and "1 \<le> prod_list ns" by simp_all
  then have "1 * 1 \<le> n * prod_list ns" by (intro mult_mono) simp_all
  then show ?case by simp
qed

lemma fold_handleMultiply_exact:
  assumes "displayValue a = Some (toNumber d)" "multiplier a = toNumber m"
    and "0 < d" "0 < m" "list_all (\<lambda>n. 1 \<le> n) ns"
    and "d * prod_list ns \<le> 2 ^ 53" "m * prod_list ns \<le> 2 ^ 53"
  shows "displayValue (fold handleMultiply (map toNumber ns) a) = Some (toNumber (d * prod_list ns)) \<and>
         multiplier (fold handleMultiply (map toNumber ns) a) = toNumber (m * prod_list ns)"
  using assms
proof (induction ns arbitrary: a d m)
  case Nil
  then show ?case by simp
next
  case (Cons n ns)
  have n: "1 \<le> n" and rest: "list_all (\<lambda>n. 1 \<le> n) ns" using Cons.prems(5) by simp_all
  have P: "1 \<le> prod_list ns" using rest by (rule prod_list_ge1)
  have dn: "d * n \<le> 2 ^ 53"
  proof -
    have "d * n * 1 \<le> d * n * prod_list ns" using Cons.prems(3) n P by (intro mult_left_mono) simp_all
    with Cons.prems(6) show ?thesis by (simp add: mult.assoc)
  qed
  have mn: "m * n \<le> 2 ^ 53"
  proof -
    have "m * n * 1 \<le> m * n * prod_list ns" using Cons.prems(4) n P by (intro mult_left_mono) simp_all
    with Cons.prems(7) show ?thesis by (simp add: mult.assoc)
  qed
  let ?a = "handleMultiply (toNumber n) a"
  have d': "displayValue ?a = Some (toNumber (d * n))"
    using Cons.prems(1,3) n dn by (simp add: handleMultiply_def js_mul_exact)
  have m': "multiplier ?a = toNumber (m * n)"
    using Cons.prems(1,2,4) n mn by (simp add: handleMultiply_def js_mul_exact)
  have "displayValue (fold handleMultiply (map toNumber ns) ?a) = Some (toNumber (d * n * prod_list ns)) \<and>
        multiplier (fold handleMultiply (map toNumber ns) ?a) = toNumber (m * n * prod_list ns)"
    using Cons.prems(3,4,6,7) n rest by (intro Cons.IH [OF d' m']) (simp_all add: mult.assoc)
  then show ?case by (simp add: mult.assoc)
qed

lemma last_click_display: "js_mul (Num 7152557373046875) (Num 5) = Num 35762786865234376"
  by (simp add: js_mul_def binary64_def exponent_def roundEven_def pow2_def Let_def compute_bitlen)

lemma last_click_multiplier: "js_mul (Num 2384185791015625) (Num 5) = Num 11920928955078124"
  by (simp add: js_mul_def binary64_def exponent_def roundEven_def pow2_def Let_def compute_bitlen)

lemma inexact_quotient:
  "js_div (Num 35762786865234376) (Num 11920928955078124) =
     Num (6755399441055745 / 2251799813685248)"
  by (simp add: js_div_def binary64_def exponent_def roundEven_def pow2_def Let_def compute_bitlen)

lemma clicks_x5:
  "displayValue (fold handleMultiply (replicate 23 (Num 5)) (handleRollComplete (Num 3) a))
     = Some (Num 35762786865234376) \<and>
   multiplier (fold handleMultiply (replicate 23 (Num 5)) (handleRollComplete (Num 3) a))
     = Num 11920928955078124"
proof -
  let ?a0 = "handleRollComplete (Num 3) a"
  let ?a22 = "fold handleMultiply (map toNumber (replicate 22 5)) ?a0"
  have d0: "displayValue ?a0 = Some (toNumber 3)" and m0: "multiplier ?a0 = toNumber 1"
    by (simp_all add: handleRollComplete_def toNumber_def)
  have all: "list_all (\<lambda>n. 1 \<le> n) (replicate 22 (5::int))" by (simp add: list_all_iff)
  have P: "prod_list (replicate 22 (5::int)) = 2384185791015625" by (simp add: prod_list_replicate)
  have "displayValue ?a22 = Some (toNumber (3 * prod_list (replicate 22 5))) \<and>
        multiplier ?a22 = toNumber (1 * prod_list (replicate 22 5))"
    by (rule fold_handleMultiply_exact [OF d0 m0 _ _ all]) (simp_all add: P)
  then have s22: "displayValue ?a22 = Some (Num 7152557373046875)"
      "multiplier ?a22 = Num 2384185791015625"
    by (simp_all add: P toNumber_def)
  have "replicate (22 + 1) (Num 5) = replicate 22 (Num 5) @ replicate 1 (Num 5)"
    by (rule replicate_add)
  then have split: "replicate 23 (Num 5) = map toNumber (replicate 22 5) @ [Num 5]"
    by (simp add: toNumber_def)
  show ?thesis
    unfolding split fold_append comp_def
    using s22 by (simp add: handleMultiply_def last_click_display last_click_multiplier)
qed

text \<open>
  C3, as claimed, fails: the numbers are binary64. After a roll of 3 and 23 clicks on
  the button x5 the display value is 35762786865234376 and the multiplier
  11920928955078124, both rounded; the reset then leaves the display value at
  6755399441055745 / 2^51 (printed 3.0000000000000004), not at 3.
\<close>

theorem multiplier_round_trip_inexact:
  "displayValue (fold handleMultiply (replicate 23 (Num 5)) (handleRollComplete (Num 3) App_init))
     = Some (Num 35762786865234376) \<and>
   multiplier (fold handleMultiply (replicate 23 (Num 5)) (handleRollComplete (Num 3) App_init))
     = Num 11920928955078124 \<and>
   displayValue (handleResetMultiplier
      (fold handleMultiply (replicate 23 (Num 5)) (handleRollComplete (Num 3) App_init)))
     = Some (Num (6755399441055745 / 2251799813685248)) \<and>
   Num (6755399441055745 / 2251799813685248) \<noteq> Num 3"
  using clicks_x5 [of App_init]
  by (simp add: handleResetMultiplier_def inexact_quotient)

text \<open>
  C3, amended. After a fresh roll has set the display value to an integer \<open>v \<ge> 1\<close>, any
  sequence of multiply calls with positive integer factors whose product with \<open>v\<close> is at
  most \<open>2^53\<close>, followed by a reset of the multiplier, leaves the display value at exactly
  \<open>v\<close> and the multiplier at 1.
\<close>

theorem multiplier_round_trip:
  assumes "1 \<le> v" "list_all (\<lambda>n. 1 \<le> n) ns" "v * prod_list ns \<le> 2 ^ 53"
  shows "displayValue (handleResetMultiplier
            (fold handleMultiply (map toNumber ns) (handleRollComplete (toNumber v) a)))
           = Some (toNumber v) \<and>
         multiplier (handleResetMultiplier
            (fold handleMultiply (map toNumber ns) (handleRollComplete (toNumber v) a)))
           = Num 1"
proof -
  let ?a0 = "handleRollComplete (toNumber v) a"
  let ?a1 = "fold handleMultiply (map toNumber ns) ?a0"
  let ?P = "prod_list ns"
  have P: "1 \<le> ?P" using assms(2) by (rule prod_list_ge1)
  have d0: "displayValue ?a0 = Some (toNumber v)" and m0: "multiplier ?a0 = toNumber 1"
    by (simp_all add: handleRollComplete_def toNumber_def)
  have "1 * ?P \<le> v * ?P" using assms(1) P by (intro mult_right_mono) simp_all
  with assms(3) have mP: "1 * ?P \<le> 2 ^ 53" by simp
  have run: "displayValue ?a1 = Some (toNumber (v * ?P))" "multiplier ?a1 = toNumber ?P"
    using fold_handleMultiply_exact [OF d0 m0 _ _ assms(2) assms(3) mP] assms(1) by simp_all
  have "v * 1 \<le> v * ?P" using assms(1) P by (intro mult_left_mono) simp_all
  with assms(3) have v53: "v \<le> 2 ^ 53" by simp
  show ?thesis
  proof (cases "1 < ?P")
    case True
    then have "js_div (toNumber (v * ?P)) (toNumber ?P) = toNumber v"
      using assms(1) v53 by (intro js_div_exact) simp_all
    with True run show ?thesis
      by (simp add: handleResetMultiplier_def js_gt_toNumber)
  next
    case False
    with P have "?P = 1" by simp
    with run show ?thesis
      by (simp add: handleResetMultiplier_def js_gt_toNumber) (simp add: toNumber_def)
  qed
qed

theorem multiplier_round_trip_witness:
  "(1::int) \<le> 6 \<and> list_all (\<lambda>n. 1 \<le> n) [2, 3 :: int] \<and> (6::int) * prod_list [2, 3] \<le> 2 ^ 53 \<and>
   displayValue (fold handleMultiply [Num 2, Num 3] (handleRollComplete (Num 6) App_init))
     = Some (Num 36) \<and>
   multiplier (fold handleMultiply [Num 2, Num 3] (handleRollComplete (Num 6) App_init)) = Num 6 \<and>
   displayValue (handleResetMultiplier
      (fold handleMultiply [Num 2, Num 3] (handleRollComplete (Num 6) App_init))) = Some (Num 6) \<and>
   multiplier (handleResetMultiplier
      (fold handleMultiply [Num 2, Num 3] (handleRollComplete (Num 6) App_init))) = Num 1"
proof -
  have h: "(1::int) \<le> 6" "list_all (\<lambda>n. 1 \<le> n) [2, 3 :: int]" "(6::int) * prod_list [2, 3] \<le> 2 ^ 53"
    by simp_all
  have run: "displayValue (fold handleMultiply [Num 2, Num 3] (handleRollComplete (Num 6) App_init))
     = Some (Num 36) \<and>
   multiplier (fold handleMultiply [Num 2, Num 3] (handleRollComplete (Num 6) App_init)) = Num 6"
    by (simp add: handleMultiply_def handleRollComplete_def App_init_def js_mul_def
        binary64_def exponent_def roundEven_def pow2_def Let_def compute_bitlen)
  show ?thesis
    using h run multiplier_round_trip [OF h, of App_init] by (simp add: toNumber_def)
qed

subsection \<open>The overlay's invariant\<close>

text \<open>
  C10, as claimed, fails: the numbers are binary64. A notification of 3 followed by 23
  clicks on the button x5 is a history of exposed actions; after it the display value is
  35762786865234376, while the outcome times the multiplier is 35762786865234372.
\<close>

theorem overlay_invariant_broken:
  "list_all exposed (OnRollComplete (Num 3) # replicate 23 (MultiplyBy (Num 5))) \<and>
   lastOutcome (OnRollComplete (Num 3) # replicate 23 (MultiplyBy (Num 5))) = Some (Num 3) \<and>
   displayValue (appRun (OnRollComplete (Num 3) # replicate 23 (MultiplyBy (Num 5))) App_init)
     = Some (Num 35762786865234376) \<and>
   multiplier (appRun (OnRollComplete (Num 3) # replicate 23 (MultiplyBy (Num 5))) App_init)
     = Num 11920928955078124 \<and>
   js_mul (Num 3) (Num 11920928955078124) = Num 35762786865234372 \<and>
   (3 :: real) * 11920928955078124 \<noteq> 35762786865234376"
proof -
  have e: "list_all exposed (OnRollComplete (Num 3) # replicate 23 (MultiplyBy (Num 5)))"
    by (simp add: list_all_iff multiplyButtons_def)
  have keep: "foldl (\<lambda>acc act. case act of OnRollComplete v \<Rightarrow> Some v | _ \<Rightarrow> acc) acc
      (replicate n (MultiplyBy f)) = acc" for acc :: "number option" and n f
    by (induction n) simp_all
  have l: "lastOutcome (OnRollComplete (Num 3) # replicate 23 (MultiplyBy (Num 5))) = Some (Num 3)"
    by (simp add: lastOutcome_def keep)
  have clicks: "foldl appStep a (replicate n (MultiplyBy f)) = fold handleMultiply (replicate n f) a"
    for a n f
    by (induction n arbitrary: a) simp_all
  have r: "appRun (OnRollComplete (Num 3) # replicate 23 (MultiplyBy (Num 5))) App_init =
      fold handleMultiply (replicate 23 (Num 5)) (handleRollComplete (Num 3) App_init)"
    by (simp add: appRun_def clicks)
  have p: "js_mul (Num 3) (Num 11920928955078124) = Num 35762786865234372"
    by (simp add: js_mul_def binary64_def exponent_def roundEven_def pow2_def Let_def
        compute_bitlen)
  show ?thesis
    using e l p clicks_x5 [of App_init] by (simp add: r)
qed

lemma agrees_step:
  assumes "agrees a lo s" "admissible x" "representable (exactStep s x)"
  shows "agrees (appStep a (map_AppAction toNumber x))
           (case map_AppAction toNumber x of OnRollComplete v \<Rightarrow> Some v | _ \<Rightarrow> lo)
           (exactStep s x)"
proof -
  obtain vo m where s: "s = (vo, m)" by (cases s)
  show ?thesis
  proof (cases x)
    case (OnRollComplete v)
    then show ?thesis
      using assms s by (simp add: handleRollComplete_def toNumber_def)
  next
    case (MultiplyBy f)
    with assms(2) have f: "1 \<le> f" by auto
    show ?thesis
    proof (cases vo)
      case None
      then show ?thesis using assms(1) s MultiplyBy by (simp add: handleMultiply_def)
    next
      case (Some v)
      have v: "1 \<le> v" and m: "1 \<le> m" using assms(1) s Some by simp_all
      have vmf: "v * m * f \<le> 2 ^ 53" using assms(3) s Some MultiplyBy by (simp add: mult.assoc)
      have "1 * (m * f) \<le> v * (m * f)" using v m f by (intro mult_right_mono) simp_all
      with vmf have mf: "m * f \<le> 2 ^ 53" by (simp add: mult.assoc)
      have "0 < v * m" using v m by simp
      then have d: "js_mul (toNumber (v * m)) (toNumber f) = toNumber (v * m * f)"
        using f vmf by (intro js_mul_exact) simp_all
      have mm: "js_mul (toNumber m) (toNumber f) = toNumber (m * f)"
        using m f mf by (intro js_mul_exact) simp_all
      have "1 * 1 \<le> m * f" using m f by (intro mult_mono) simp_all
      then show ?thesis
        using assms(1) s Some MultiplyBy d mm v vmf
        by (simp add: handleMultiply_def mult.assoc)
    qed
  next
    case ResetMultiplier
    show ?thesis
    proof (cases vo)
      case None
      then show ?thesis
        using assms(1) s ResetMultiplier by (simp add: handleResetMultiplier_def)
    next
      case (Some v)
      have v: "1 \<le> v" and m: "1 \<le> m" and vm: "v * m \<le> 2 ^ 53"
        using assms(1) s Some by simp_all
      have "v * 1 \<le> v * m" using v m by (intro mult_left_mono) simp_all
      with vm have v53: "v \<le> 2 ^ 53" by simp
      show ?thesis
      proof (cases "1 < m")
        case True
        then have "js_div (toNumber (v * m)) (toNumber m) = toNumber v"
          using v v53 by (intro js_div_exact) simp_all
        with True show ?thesis
          using assms(1) s Some ResetMultiplier v v53
          by (simp add: handleResetMultiplier_def js_gt_toNumber) (simp add: toNumber_def)
      next
        case False
        with m have "m = 1" by simp
        then show ?thesis
          using assms(1) s Some ResetMultiplier
          by (simp add: handleResetMultiplier_def js_gt_toNumber)
      qed
    qed
  next
    case (SelectDice d)
    then show ?thesis
      using assms(1) s by (simp add: setSelectedDice_def)
  qed
qed

lemma agrees_run:
  assumes "agrees a lo s" "list_all admissible acts" "withinExact s acts"
  shows "agrees (foldl appStep a (map (map_AppAction toNumber) acts))
           (foldl (\<lambda>acc act. case act of OnRollComplete v \<Rightarrow> Some v | _ \<Rightarrow> acc) lo
              (map (map_AppAction toNumber) acts))
           (foldl exactStep s acts)"
  using assms
proof (induction acts arbitrary: a lo s)
  case Nil
  then show ?case by simp
next
  case (Cons x xs)
  have "agrees (appStep a (map_AppAction toNumber x))
          (case map_AppAction toNumber x of OnRollComplete v \<Rightarrow> Some v | _ \<Rightarrow> lo)
          (exactStep s x)"
    using Cons.prems by (intro agrees_step) simp_all
  from Cons.IH [OF this] Cons.prems show ?case by simp
qed

text \<open>
  C10, amended. Take a history of notifications of outcomes that are integers at least
  1, multiply actions with a factor among 2, 3, 4, 5, 6, multiplier resets and die
  selections, from the initial state of \<open>App\<close>, along which the exact product of the last
  outcome and the cumulative multiplier never exceeds \<open>2^53\<close>. After it the multiplier is
  an integer \<open>m \<ge> 1\<close>, namely the exact cumulative multiplier, and the display value is
  set exactly when an outcome \<open>v\<close> was notified, to exactly \<open>v * m\<close> for the most recent one.
\<close>

theorem overlay_invariant:
  assumes "list_all admissible acts" "withinExact (None, 1) acts"
  shows "case exactRun acts of
           (vo, m) \<Rightarrow>
             1 \<le> m \<and>
             multiplier (appRun (map (map_AppAction toNumber) acts) App_init) = toNumber m \<and>
             displayValue (appRun (map (map_AppAction toNumber) acts) App_init)
               = map_option (\<lambda>v. toNumber (v * m)) vo \<and>
             lastOutcome (map (map_AppAction toNumber) acts) = map_option toNumber vo"
proof -
  have start: "agrees App_init None (None, 1)"
    by (simp add: App_init_def toNumber_def)
  obtain vo m where run: "exactRun acts = (vo, m)" by (cases "exactRun acts")
  from agrees_run [OF start assms] run show ?thesis
    by (simp add: appRun_def lastOutcome_def exactRun_def)
qed

theorem overlay_invariant_witness:
  "list_all admissible [OnRollComplete 6, MultiplyBy 2, MultiplyBy 3] \<and>
   withinExact (None, 1) [OnRollComplete 6, MultiplyBy 2, MultiplyBy 3] \<and>
   exactRun [OnRollComplete 6, MultiplyBy 2, MultiplyBy 3] = (Some 6, 6) \<and>
   lastOutcome [OnRollComplete (Num 6), MultiplyBy (Num 2), MultiplyBy (Num 3)] = Some (Num 6) \<and>
   displayValue (appRun [OnRollComplete (Num 6), MultiplyBy (Num 2), MultiplyBy (Num 3)] App_init)
     = Some (Num 36) \<and>
   multiplier (appRun [OnRollComplete (Num 6), MultiplyBy (Num 2), MultiplyBy (Num 3)] App_init)
     = Num 6"
proof -
  have h: "list_all admissible [OnRollComplete 6, MultiplyBy 2, MultiplyBy 3]"
    "withinExact (None, 1) [OnRollComplete 6, MultiplyBy 2, MultiplyBy 3]"
    by simp_all
  have r: "exactRun [OnRollComplete 6, MultiplyBy 2, MultiplyBy 3] = (Some 6, 6)"
    by (simp add: exactRun_def)
  show ?thesis
    using overlay_invariant [OF h] h r by (simp add: toNumber_def)
qed



section \<open>The die selector\<close>

lemma step_Select_overlay:
  "displayValue (app (step p (Select d))) = displayValue (app p) \<and>
   multiplier (app (step p (Select d))) = multiplier (app p)"
  by (simp add: Let_def setSelectedDice_def)

lemma run_snoc: "run (evs @ [e]) p = step (run evs p) e"
  by (simp add: run_def)

text \<open>
  C9. Whatever die types are selected one after the other, the overlay's display value
  and multiplier stay as they were; a roll-completion notification is what sets them anew,
  to the reported value and 1.
\<close>

theorem die_switch_keeps_overlay:
  "displayValue (app (run (map Select ds) p)) = displayValue (app p) \<and>
   multiplier (app (run (map Select ds) p)) = multiplier (app p) \<and>
   displayValue (handleRollComplete v (app (run (map Select ds) p))) = Some v \<and>
   multiplier (handleRollComplete v (app (run (map Select ds) p))) = Num 1"
proof (induction ds rule: rev_induct)
  case Nil
  show ?case by (simp add: run_def handleRollComplete_def)
next
  case (snoc d ds)
  have "run (map Select (ds @ [d])) p = step (run (map Select ds) p) (Select d)"
    by (simp add: run_snoc)
  then show ?case
    using snoc step_Select_overlay [of "run (map Select ds) p" d]
    by (simp add: handleRollComplete_def)
qed

theorem die_switch_keeps_overlay_witness:
  "displayValue (app (run (map Select [d20, d6])
      (Page_init\<lparr>app := handleMultiply (Num 2) (handleRollComplete (Num 6) App_init)\<rparr>))) =
     Some (Num 12) \<and>
   multiplier (app (run (map Select [d20, d6])
      (Page_init\<lparr>app := handleMultiply (Num 2) (handleRollComplete (Num 6) App_init)\<rparr>))) =
     Num 2"
  using die_switch_keeps_overlay
    [of "[d20, d6]"
        "Page_init\<lparr>app := handleMultiply (Num 2) (handleRollComplete (Num 6) App_init)\<rparr>" NaN]
  by (simp add: handleMultiply_def handleRollComplete_def App_init_def js_mul_def
      binary64_def exponent_def roundEven_def pow2_def Let_def compute_bitlen)

section \<open>Outcomes and the face-orientation tables\<close>

lemma floor_draw:
  fixes u :: real
  assumes "0 \<le> u" "u < 1" "0 < n"
  shows "1 \<le> \<lfloor>u * of_int n\<rfloor> + 1 \<and> \<lfloor>u * of_int n\<rfloor> + 1 \<le> n"
proof -
  have "0 \<le> u * of_int n" using assms by simp
  then have lo: "0 \<le> \<lfloor>u * of_int n\<rfloor>" by simp
  have "u * of_int n < of_int n" using assms by simp
  then have "\<lfloor>u * of_int n\<rfloor> < n" by (simp add: floor_less_iff)
  with lo show ?thesis by simp
qed

text \<open>
  C5. With a draw \<open>u\<close> of \<open>Math.random()\<close> in \<open>[0, 1)\<close>, the timer callback of the
  twenty-sided die sets the roll value to \<open>floor(u * 20) + 1\<close>, which lies in \<open>[1, 20]\<close>,
  and that of the six-sided die sets it to \<open>floor(u * 6) + 1\<close>, which lies in \<open>[1, 6]\<close>.
\<close>

theorem roll_outcome_in_range:
  assumes "0 \<le> u" "u < 1"
  shows "d20_rollValue (D20_onTimeout u s) = Some (\<lfloor>u * 20\<rfloor> + 1) \<and>
         1 \<le> \<lfloor>u * 20\<rfloor> + 1 \<and> \<lfloor>u * 20\<rfloor> + 1 \<le> 20 \<and>
         d6_rollValue (fst (D6_onTimeout given u t)) = Some (\<lfloor>u * 6\<rfloor> + 1) \<and>
         1 \<le> \<lfloor>u * 6\<rfloor> + 1 \<and> \<lfloor>u * 6\<rfloor> + 1 \<le> 6"
proof -
  have a: "d20_rollValue (D20_onTimeout u s) = Some (\<lfloor>u * 20\<rfloor> + 1)"
    by (simp add: D20_onTimeout_def Let_def split: option.splits)
  have b: "d6_rollValue (fst (D6_onTimeout given u t)) = Some (\<lfloor>u * 6\<rfloor> + 1)"
    by (simp add: D6_onTimeout_def Let_def)
  from floor_draw [OF assms, of 20] floor_draw [OF assms, of 6] a b
  show ?thesis by simp
qed

theorem roll_outcome_in_range_witness:
  "(0::real) \<le> 1/2 \<and> (1/2::real) < 1 \<and>
   d20_rollValue (D20_onTimeout (1/2)
     \<lparr>d20_mesh = None, d20_isRolling = True, d20_rollValue = None\<rparr>) = Some 11 \<and>
   d6_rollValue (fst (D6_onTimeout True (1/2)
     \<lparr>d6_mesh = None, d6_isRolling = True, d6_rollValue = None, d6_isSettling = False,
      d6_targetRotation = None, d6_cues = []\<rparr>)) = Some 4"
proof -
  have h: "(0::real) \<le> 1/2" "(1/2::real) < 1" by simp_all
  show ?thesis using roll_outcome_in_range [OF h] by simp
qed

lemma js_index_total:
  "1 \<le> k \<Longrightarrow> k \<le> int (length xs) \<Longrightarrow> \<exists>!r. js_index xs (k - 1) = Some r"
  by (simp add: js_index_def)

text \<open>
  C7. For each die type, every outcome from 1 to the number of faces indexes an entry of
  the table: the lookup yields exactly one rotation triple. (As a function of the die type
  and the outcome, it yields the same triple every time.)
\<close>

theorem orientationOf_total:
  assumes "1 \<le> k" "k \<le> faces d"
  shows "\<exists>!r. orientationOf d k = Some r"
proof (cases d)
  case d20
  then show ?thesis using assms js_index_total [of k FACE_UP_ROTATIONS_D20]
    by (simp add: FACE_UP_ROTATIONS_D20_def)
next
  case d6
  then show ?thesis using assms js_index_total [of k FACE_UP_ROTATIONS_D6]
    by (simp add: FACE_UP_ROTATIONS_D6_def)
qed

theorem orientationOf_total_witness:
  "(1::int) \<le> 6 \<and> 6 \<le> faces d6 \<and> (\<exists>!r. orientationOf d6 6 = Some r) \<and>
   orientationOf d6 6 = Some (0, Math_PI, 0) \<and>
   orientationOf d20 20 = Some (0.8, -0.8, 0)"
proof -
  have h: "(1::int) \<le> 6" "6 \<le> faces d6" by simp_all
  have v: "orientationOf d6 6 = Some (0, Math_PI, 0)"
    by (simp add: js_index_def FACE_UP_ROTATIONS_D6_def)
  have w: "orientationOf d20 20 = Some (0.8, -0.8, 0)"
    by (simp add: js_index_def FACE_UP_ROTATIONS_D20_def)
  show ?thesis using orientationOf_total [OF h] h v w by simp
qed

section \<open>The twenty-sided die's result text\<close>

text \<open>
  C8. For a resolved twenty-sided die with outcome \<open>k\<close> in \<open>[1, 20]\<close> the result text is
  "CRITICAL HIT!" for 20, "CRITICAL FAIL!" for 1 and "Rolled: k" otherwise; and a result
  text is rendered only when a roll value is set and the die is not rolling.
\<close>

theorem D20_result_text:
  "(D20_phase s = Resolved \<and> d20_rollValue s = Some k \<and> 1 \<le> k \<and> k \<le> 20 \<longrightarrow>
      D20_resultText s =
        Some (if k = 20 then ''CRITICAL HIT!''
              else if k = 1 then ''CRITICAL FAIL!''
              else ''Rolled: '' @ String k)) \<and>
   (D20_resultText s \<noteq> None \<longrightarrow> d20_rollValue s \<noteq> None \<and> \<not> d20_isRolling s)"
  by (auto simp: D20_resultText_def D20_phase_def split: option.splits if_splits)

theorem D20_result_text_witness:
  "D20_resultText \<lparr>d20_mesh = None, d20_isRolling = False, d20_rollValue = Some 20\<rparr>
     = Some ''CRITICAL HIT!'' \<and>
   D20_resultText \<lparr>d20_mesh = None, d20_isRolling = False, d20_rollValue = Some 1\<rparr>
     = Some ''CRITICAL FAIL!'' \<and>
   D20_resultText \<lparr>d20_mesh = None, d20_isRolling = False, d20_rollValue = Some 7\<rparr>
     = Some ''Rolled: 7'' \<and>
   D20_resultText \<lparr>d20_mesh = None, d20_isRolling = False, d20_rollValue = Some 19\<rparr>
     = Some ''Rolled: 19''"
  using
    D20_result_text [of "\<lparr>d20_mesh = None, d20_isRolling = False, d20_rollValue = Some 20\<rparr>" 20]
    D20_result_text [of "\<lparr>d20_mesh = None, d20_isRolling = False, d20_rollValue = Some 1\<rparr>" 1]
    D20_result_text [of "\<lparr>d20_mesh = None, d20_isRolling = False, d20_rollValue = Some 7\<rparr>" 7]
    D20_result_text [of "\<lparr>d20_mesh = None, d20_isRolling = False, d20_rollValue = Some 19\<rparr>" 19]
  by (simp add: D20_phase_def String_def decimal.simps)

section \<open>The roll engine\<close>

subsection \<open>Settling of the six-sided die\<close>

text \<open>
  C6. For a six-sided die in the Settling phase, one frame with delta \<open>dt\<close> moves every
  axis to \<open>lerp(current, target, 25 * dt)\<close>; the die is Resolved after the frame exactly
  when all three moved axes are less than 0.1 away from the target, and then the rotation
  is the exact target; otherwise the die stays Settling at the moved rotation.
\<close>

theorem D6_settling_frame:
  assumes "D6_phase s = Settling" "d6_rollValue s \<noteq> None"
    and "d6_mesh s = Some (x, y, z)" "d6_targetRotation s = Some (tx, ty, tz)"
  shows "let s' = D6_useFrame dt s;
             x' = lerp x tx (25 * dt);
             y' = lerp y ty (25 * dt);
             z' = lerp z tz (25 * dt);
             near = (\<bar>x' - tx\<bar> < 0.1 \<and> \<bar>y' - ty\<bar> < 0.1 \<and> \<bar>z' - tz\<bar> < 0.1)
         in (D6_phase s' = Resolved \<longleftrightarrow> near) \<and>
            (D6_phase s' = Settling \<longleftrightarrow> \<not> near) \<and>
            d6_mesh s' = Some (if near then (tx, ty, tz) else (x', y', z')) \<and>
            d6_rollValue s' = d6_rollValue s \<and>
            d6_targetRotation s' = d6_targetRotation s"
proof -
  have flags: "\<not> d6_isRolling s" "d6_isSettling s"
    using assms(1) by (auto simp: D6_phase_def split: if_splits)
  show ?thesis
    using flags assms(2-4)
    by (simp add: D6_useFrame_def D6_phase_def Let_def)
qed

theorem D6_settling_frame_witness:
  "D6_phase settling4 = Settling \<and>
   D6_phase (D6_useFrame (1/60) settling4) = Settling \<and>
   d6_mesh (D6_useFrame (1/60) settling4) = Some (lerp 0 (- Math_PI / 2) (25 * (1/60)), 0, 0) \<and>
   D6_phase (D6_useFrame (1/25) settling4) = Resolved \<and>
   d6_mesh (D6_useFrame (1/25) settling4) = Some (- Math_PI / 2, 0, 0)"
proof -
  have h1: "D6_phase settling4 = Settling" by (simp add: settling4_def D6_phase_def)
  have h2: "d6_rollValue settling4 \<noteq> None" by (simp add: settling4_def)
  have h3: "d6_mesh settling4 = Some (0, 0, 0)" by (simp add: settling4_def)
  have h4: "d6_targetRotation settling4 = Some (- Math_PI / 2, 0, 0)" by (simp add: settling4_def)
  show ?thesis
    using h1 D6_settling_frame [OF h1 h2 h3 h4, of "1/60"] D6_settling_frame [OF h1 h2 h3 h4, of "1/25"]
    by (simp add: Let_def lerp_def Math_PI_def)
qed

subsection \<open>The roll-completion notification\<close>

text \<open>
  C1, as claimed, fails for the twenty-sided die: its timer callback has no
  notification to fire. From the initial page (twenty-sided die mounted) a click and the
  timer with draw 1/2 complete a roll with outcome 11, the callback reports no value, and
  the overlay's display value is still unset.
\<close>

theorem D20_roll_reports_nothing:
  "Die_outcome (fst (Die_onTimeout (1/2) (fst (Die_handleClick (mount d20))))) = Some 11 \<and>
   snd (Die_onTimeout (1/2) (fst (Die_handleClick (mount d20)))) = [] \<and>
   displayValue (app (run [Click, Timeout (1/2)] Page_init)) = None"
  by (simp add: run_def Page_init_def App_init_def mountedId_def D20_handleClick_def
      D20_onTimeout_def Let_def js_index_def FACE_UP_ROTATIONS_D20_def)

text \<open>
  C1, amended. A pending timer fires once: firing removes it. When it fires, a six-sided
  die's callback passes exactly one value to the roll-completion handler, the outcome it
  has just drawn and stored, and the overlay receives exactly that one notification; a
  twenty-sided die's callback stores its outcome and notifies nobody.
\<close>

theorem roll_completion_notification:
  assumes "timers p = i # rest" "i < length (dice p)"
  shows "timers (step p (Timeout u)) = rest \<and>
         (case dice p ! i of
           DieD6 s \<Rightarrow>
             snd (Die_onTimeout u (DieD6 s)) = [\<lfloor>u * 6\<rfloor> + 1] \<and>
             Die_outcome (dice (step p (Timeout u)) ! i) = Some (\<lfloor>u * 6\<rfloor> + 1) \<and>
             app (step p (Timeout u)) = handleRollComplete (toNumber (\<lfloor>u * 6\<rfloor> + 1)) (app p)
         | DieD20 s \<Rightarrow>
             snd (Die_onTimeout u (DieD20 s)) = [] \<and>
             Die_outcome (dice (step p (Timeout u)) ! i) = Some (\<lfloor>u * 20\<rfloor> + 1) \<and>
             app (step p (Timeout u)) = app p)"
  using assms
  by (auto simp: D6_onTimeout_def D20_onTimeout_def Let_def split: Die.splits option.splits)

theorem roll_completion_notification_witness:
  "timers (run [Select d6, Click] Page_init) = [1] \<and>
   length (dice (run [Select d6, Click] Page_init)) = 2 \<and>
   displayValue (app (run [Select d6, Click] Page_init)) = None \<and>
   app (step (run [Select d6, Click] Page_init) (Timeout (1/2))) =
     \<lparr>displayValue = Some (Num 4), multiplier = Num 1, selectedDice = d6\<rparr>"
proof -
  let ?p = "run [Select d6, Click] Page_init"
  have t: "timers ?p = [1]"
    by (simp add: run_def Page_init_def App_init_def mountedId_def setSelectedDice_def
        D6_handleClick_def Let_def)
  have l: "length (dice ?p) = 2"
    by (simp add: run_def Page_init_def App_init_def mountedId_def setSelectedDice_def
        D6_handleClick_def Let_def)
  then have i: "1 < length (dice ?p)" by simp
  have a: "app ?p = \<lparr>displayValue = None, multiplier = Num 1, selectedDice = d6\<rparr>"
    by (simp add: run_def Page_init_def App_init_def mountedId_def setSelectedDice_def
        D6_handleClick_def Let_def)
  have d: "\<exists>s. dice ?p ! 1 = DieD6 s"
    by (simp add: run_def Page_init_def App_init_def mountedId_def setSelectedDice_def
        D6_handleClick_def Let_def)
  show ?thesis
    using roll_completion_notification [OF t i, of "1/2"] t l a d
    by (auto simp: handleRollComplete_def toNumber_def)
qed

subsection \<open>Clicks during a roll\<close>

text \<open>
  C2, as claimed, fails in the Settling phase: the guard of the six-sided die's click
  handler looks at \<open>isRolling\<close> only. After a completed roll with outcome 4 the die is
  Settling with no timer pending; a click then clears the outcome, makes the die Rolling
  and schedules a timer.
\<close>

theorem click_while_settling_starts_roll:
  "let p = run [Select d6, Click, Timeout (1/2)] Page_init
   in mountedDie p = Some (DieD6 settling4) \<and>
      D6_handleClick settling4 =
        (settling4\<lparr>d6_cues := [RollSound, RollSound], d6_isRolling := True,
                    d6_rollValue := None\<rparr>, True) \<and>
      map_option Die_phase (mountedDie p) = Some Settling \<and>
      map_option Die_outcome (mountedDie p) = Some (Some 4) \<and>
      timers p = [] \<and>
      map_option Die_phase (mountedDie (step p Click)) = Some Rolling \<and>
      map_option Die_outcome (mountedDie (step p Click)) = Some None \<and>
      timers (step p Click) = [1]"
  by (simp add: run_def Page_init_def App_init_def mountedId_def mountedDie_def
      setSelectedDice_def D6_handleClick_def D6_onTimeout_def D6_phase_def settling4_def
      handleRollComplete_def Let_def js_index_def FACE_UP_ROTATIONS_D6_def)

text \<open>
  C2, amended. While the mounted die (of either type) is in the Rolling phase, a click
  changes nothing: the click handler returns the die's state as it was and schedules no
  timer, so the whole page, pending timers included, stays the same.
\<close>

theorem click_while_rolling_ignored:
  assumes "mountedDie p = Some d" "Die_phase d = Rolling"
  shows "Die_handleClick d = (d, False) \<and> step p Click = p"
proof -
  have ne: "dice p \<noteq> []" and d: "d = last (dice p)"
    using assms(1) by (auto simp: mountedDie_def split: if_splits)
  have nth: "dice p ! mountedId p = d"
    using ne d by (simp add: mountedId_def last_conv_nth)
  have noop: "Die_handleClick d = (d, False)"
    using assms(2)
    by (cases d) (auto simp: D20_handleClick_def D6_handleClick_def D20_phase_def D6_phase_def
        split: if_splits)
  have same: "(dice p)[mountedId p := d] = dice p"
    using nth list_update_id [of "dice p" "mountedId p"] by simp
  show ?thesis using ne nth noop same by simp
qed

theorem click_while_rolling_ignored_witness:
  "mountedDie (run [Click] Page_init) =
     Some (DieD20 \<lparr>d20_mesh = Some (0, 0, 0), d20_isRolling = True, d20_rollValue = None\<rparr>) \<and>
   Die_phase (DieD20 \<lparr>d20_mesh = Some (0, 0, 0), d20_isRolling = True, d20_rollValue = None\<rparr>)
     = Rolling \<and>
   timers (run [Click] Page_init) = [0] \<and>
   step (run [Click] Page_init) Click = run [Click] Page_init"
proof -
  let ?d = "DieD20 \<lparr>d20_mesh = Some (0, 0, 0), d20_isRolling = True, d20_rollValue = None\<rparr>"
  have m: "mountedDie (run [Click] Page_init) = Some ?d"
    by (simp add: run_def Page_init_def App_init_def mountedId_def mountedDie_def
        D20_handleClick_def Let_def)
  have ph: "Die_phase ?d = Rolling" by (simp add: D20_phase_def)
  have t: "timers (run [Click] Page_init) = [0]"
    by (simp add: run_def Page_init_def App_init_def mountedId_def mountedDie_def
        D20_handleClick_def Let_def)
  show ?thesis
    using click_while_rolling_ignored [OF m ph] m ph t by simp
qed

subsection \<open>Timers of an unmounted die\<close>

text \<open>
  On every page reachable from the initial one the pending timers belong to existing die
  instances; right after a switch to the other die type all of them belong to unmounted
  instances.
\<close>

lemma timersOwned_step: "timersOwned p \<Longrightarrow> timersOwned (step p e)"
proof (cases e)
  case Click
  then show "timersOwned p \<Longrightarrow> timersOwned (step p e)"
    by (auto simp: timersOwned_def mountedId_def Let_def list_all_iff split: prod.splits)
next
  case (Frame x)
  then show "timersOwned p \<Longrightarrow> timersOwned (step p e)"
    by (auto simp: timersOwned_def Let_def)
next
  case (Timeout u)
  then show "timersOwned p \<Longrightarrow> timersOwned (step p e)"
    by (auto simp: timersOwned_def Let_def split: list.splits prod.splits)
next
  case (Select d)
  then show "timersOwned p \<Longrightarrow> timersOwned (step p e)"
    by (auto simp: timersOwned_def Let_def list_all_iff)
next
  case (Multiply f)
  then show "timersOwned p \<Longrightarrow> timersOwned (step p e)"
    by (auto simp: timersOwned_def)
next
  case Reset
  then show "timersOwned p \<Longrightarrow> timersOwned (step p e)"
    by (auto simp: timersOwned_def)
qed

lemma timersOwned_run: "timersOwned (run evs Page_init)"
proof (induction evs rule: rev_induct)
  case Nil
  show ?case by (simp add: run_def timersOwned_def Page_init_def)
next
  case (snoc e evs)
  then show ?case by (simp add: run_def timersOwned_step)
qed

lemma switch_makes_timers_stale:
  assumes "timersOwned p" "d \<noteq> selectedDice (app p)"
  shows "list_all (\<lambda>i. i < mountedId (step p (Select d))) (timers (step p (Select d)))"
  using assms by (auto simp: timersOwned_def mountedId_def Let_def list_all_iff)

text \<open>
  C4, as claimed, fails for the overlay: a six-sided die is clicked and then replaced by
  the twenty-sided die while its timer is pending; the display value is unset until the
  timer fires and sets it to the stale outcome 4.
\<close>

theorem stale_roll_reaches_overlay:
  "let p = run [Select d6, Click, Select d20] Page_init
   in selectedDice (app p) = d20 \<and> mountedId p = 2 \<and> timers p = [1] \<and>
      displayValue (app p) = None \<and>
      displayValue (app (step p (Timeout (1/2)))) = Some (Num 4)"
  by (simp add: run_def Page_init_def App_init_def mountedId_def mountedDie_def
      setSelectedDice_def D6_handleClick_def D6_onTimeout_def toNumber_def
      handleRollComplete_def Let_def js_index_def FACE_UP_ROTATIONS_D6_def)

text \<open>
  C4, amended. When the timer that fires belongs to a die instance that is no longer
  the mounted one, the state of the mounted die is not touched; and when that owner is a
  twenty-sided die, the overlay is not touched either.
\<close>

theorem stale_timer_effects:
  assumes "timers p = i # rest" "i < mountedId p"
  shows "mountedDie (step p (Timeout u)) = mountedDie p \<and>
         ((\<exists>s. dice p ! i = DieD20 s) \<longrightarrow> app (step p (Timeout u)) = app p)"
proof -
  have len: "i < length (dice p)" and ne: "dice p \<noteq> []"
    and notlast: "i \<noteq> length (dice p) - 1"
    using assms(2) by (auto simp: mountedId_def)
  have keep: "last ((dice p)[i := d']) = last (dice p)" for d'
    using ne notlast by (simp add: last_list_update)
  show ?thesis
    using assms(1) len ne keep
    by (auto simp: mountedDie_def D6_onTimeout_def Let_def split: Die.splits prod.splits)
qed

theorem stale_timer_effects_witness:
  "timers (run [Select d6, Click, Select d20] Page_init) = [1] \<and>
   mountedId (run [Select d6, Click, Select d20] Page_init) = 2 \<and>
   mountedDie (run [Select d6, Click, Select d20] Page_init) = Some (mount d20) \<and>
   mountedDie (step (run [Select d6, Click, Select d20] Page_init) (Timeout (1/2))) =
     Some (mount d20)"
proof -
  let ?p = "run [Select d6, Click, Select d20] Page_init"
  have t: "timers ?p = [1]"
    by (simp add: run_def Page_init_def App_init_def mountedId_def setSelectedDice_def
        D6_handleClick_def Let_def)
  have l: "mountedId ?p = 2"
    by (simp add: run_def Page_init_def App_init_def mountedId_def setSelectedDice_def
        D6_handleClick_def Let_def)
  then have i: "1 < mountedId ?p" by simp
  have m: "mountedDie ?p = Some (mount d20)"
    by (simp add: run_def Page_init_def App_init_def mountedId_def mountedDie_def
        setSelectedDice_def D6_handleClick_def Let_def)
  show ?thesis
    using stale_timer_effects [OF t i, of "1/2"] t l m by simp
qed

end
